theory Spec2Isabelle
  imports Complex_Main
begin

section \<open>The catch-zone game engine (src/js/gameEngine.js)\<close>

text \<open>
  The class \<open>GameEngine\<close> is embedded as a record of its fields and one function per
  method, each taking the engine and returning the updated engine.

  Conventions of the embedding:
  \<^item> JavaScript numbers that hold times and positions (\<open>y\<close>, \<open>currentDropTime\<close>,
    \<open>currentLevelTime\<close>, timestamps) are \<open>real\<close>; the counters \<open>score\<close>, \<open>level\<close>
    and \<open>missCount\<close> are \<open>int\<close>. Rounding of IEEE doubles is not modelled.
  \<^item> The strings \<open>'apple'\<close>, \<open>'pear'\<close>, \<open>'orange'\<close>, \<open>'bomb'\<close> that
    \<open>getRandomItemType\<close> returns are the datatype \<open>itemType\<close>; the strings
    \<open>"LEFT"\<close>, \<open>"CENTER"\<close>, \<open>"RIGHT"\<close> stored in \<open>zone\<close> and \<open>basketPosition\<close>
    are the datatype \<open>zoneLabel\<close>. \<open>setBasketPose\<close> still receives an arbitrary string.
  \<^item> The two messages handed to \<open>gameOver\<close> are the datatype \<open>reason\<close>:
    \<open>BombTouched\<close> is the literal of \<open>handleCatch\<close> (a bomb was touched),
    \<open>FruitsMissed\<close> the literal of \<open>handleMiss\<close> (two fruits were missed).
  \<^item> A callback slot (\<open>onScoreChange\<close>, \<open>onGameEnd\<close>) is a \<open>bool\<close>: whether a
    callback is installed. Calling an installed callback appends an \<open>event\<close> with the
    arguments of the call to the field \<open>fired\<close>, which is the observable history of
    the engine and is not a field of the source class. The callbacks of main.js only
    write to the page, so a callback does not call back into the engine.
  \<^item> \<open>Math.random()\<close> and \<open>performance.now()\<close> are parameters of the functions that
    call them, in the order of the calls.
\<close>

subsection \<open>Data\<close>

datatype itemType = Apple | Pear | Orange | Bomb

datatype zoneLabel = LEFT | CENTER | RIGHT

datatype reason = BombTouched | FruitsMissed

datatype event =
    ScoreChange int int int
  | GameEnd int int reason

record item =
  type :: itemType
  zone :: zoneLabel
  y :: real
  caught :: bool
  processed :: bool

record engine =
  isGameActive :: bool
  score :: int
  level :: int
  missCount :: int
  levelDuration :: real
  currentLevelTime :: real
  baseDropTime :: real
  currentDropTime :: real
  items :: "item list"
  lastSpawnTime :: real
  nextSpawnInterval :: real
  basketPosition :: zoneLabel
  lastTime :: real
  onScoreChange :: bool
  onGameEnd :: bool
  fired :: "event list"

subsection \<open>Construction and life cycle\<close>

definition reset :: "engine \<Rightarrow> engine" where
  "reset s =
     s\<lparr>isGameActive := False, score := 0, level := 1, missCount := 0,
       levelDuration := 20, currentLevelTime := 0,
       baseDropTime := 2.0, currentDropTime := 2.0,
       items := [], lastSpawnTime := 0, nextSpawnInterval := 0,
       basketPosition := CENTER\<rparr>"

text \<open>
  The constructor calls \<open>reset\<close> and clears both callback slots. It leaves
  \<open>lastTime\<close> undefined; the field is first read by \<open>update\<close> on an active engine,
  and only \<open>start\<close> activates an engine, after writing \<open>lastTime\<close>. The model
  gives it the value 0 until then.
\<close>

definition GameEngine :: engine where
  "GameEngine =
     \<lparr>isGameActive = False, score = 0, level = 1, missCount = 0,
      levelDuration = 20, currentLevelTime = 0,
      baseDropTime = 2.0, currentDropTime = 2.0,
      items = [], lastSpawnTime = 0, nextSpawnInterval = 0,
      basketPosition = CENTER, lastTime = 0,
      onScoreChange = False, onGameEnd = False, fired = []\<rparr>"

definition updateDropTime :: "engine \<Rightarrow> engine" where
  "updateDropTime s =
     s\<lparr>currentDropTime := max 0.5 (2.0 - (real_of_int (level s) - 1) * 0.2)\<rparr>"

definition scheduleNextSpawn :: "real \<Rightarrow> engine \<Rightarrow> engine" where
  "scheduleNextSpawn rnd s =
     (let mn = currentDropTime s * 600;
          mx = currentDropTime s * 800
      in s\<lparr>nextSpawnInterval := rnd * (mx - mn) + mn\<rparr>)"

definition start :: "real \<Rightarrow> real \<Rightarrow> engine \<Rightarrow> engine" where
  "start rnd now s =
     (scheduleNextSpawn rnd (updateDropTime ((reset s)\<lparr>isGameActive := True\<rparr>)))
       \<lparr>lastTime := now\<rparr>"

definition stop :: "engine \<Rightarrow> engine" where
  "stop s = s\<lparr>isGameActive := False\<rparr>"

definition setBasketPose :: "string \<Rightarrow> engine \<Rightarrow> engine" where
  "setBasketPose poseLabel s =
     (if poseLabel = ''LEFT'' then s\<lparr>basketPosition := LEFT\<rparr>
      else if poseLabel = ''CENTER'' then s\<lparr>basketPosition := CENTER\<rparr>
      else if poseLabel = ''RIGHT'' then s\<lparr>basketPosition := RIGHT\<rparr>
      else s)"

definition setScoreChangeCallback :: "bool \<Rightarrow> engine \<Rightarrow> engine" where
  "setScoreChangeCallback cb s = s\<lparr>onScoreChange := cb\<rparr>"

definition setGameEndCallback :: "bool \<Rightarrow> engine \<Rightarrow> engine" where
  "setGameEndCallback cb s = s\<lparr>onGameEnd := cb\<rparr>"

subsection \<open>Notifications, level-up and game over\<close>

definition notifyChange :: "engine \<Rightarrow> engine" where
  "notifyChange s =
     (if onScoreChange s
      then s\<lparr>fired := fired s @ [ScoreChange (score s) (level s) (missCount s)]\<rparr>
      else s)"

definition gameOver :: "reason \<Rightarrow> engine \<Rightarrow> engine" where
  "gameOver r s =
     (let s1 = s\<lparr>isGameActive := False\<rparr>
      in if onGameEnd s1
         then s1\<lparr>fired := fired s1 @ [GameEnd (score s1) (level s1) r]\<rparr>
         else s1)"

definition levelUp :: "engine \<Rightarrow> engine" where
  "levelUp s =
     notifyChange (updateDropTime (s\<lparr>level := level s + 1, currentLevelTime := 0\<rparr>))"

subsection \<open>Spawning\<close>

definition getRandomItemType :: "real \<Rightarrow> itemType" where
  "getRandomItemType rand =
     (if rand < 0.2 then Bomb
      else if rand < 0.6 then Apple
      else if rand < 0.85 then Pear
      else Orange)"

text \<open>
  \<open>zones[Math.floor(Math.random() * zones.length)]\<close>: \<open>Math.random\<close> returns a
  number in \<open>[0, 1)\<close>, so the index is 0, 1 or 2. The model maps every other index to
  \<open>RIGHT\<close>; the reachable states below only draw from \<open>[0, 1)\<close>.
\<close>

definition zoneAt :: "int \<Rightarrow> zoneLabel" where
  "zoneAt k = (if k = 0 then LEFT else if k = 1 then CENTER else RIGHT)"

definition spawnItem :: "real \<Rightarrow> real \<Rightarrow> engine \<Rightarrow> engine" where
  "spawnItem rndType rndZone s =
     s\<lparr>items := items s @
          [\<lparr>type = getRandomItemType rndType,
            zone = zoneAt \<lfloor>rndZone * 3\<rfloor>,
            y = 0, caught = False, processed = False\<rparr>]\<rparr>"

subsection \<open>Collision detection\<close>

text \<open>
  The handlers receive an item object and mutate it in place; in the model they return
  the engine together with the item as they leave it.
\<close>

definition handleCatch :: "item \<Rightarrow> engine \<Rightarrow> engine \<times> item" where
  "handleCatch it s =
     (if type it = Bomb then (gameOver BombTouched s, it)
      else
        (let it1 = it\<lparr>caught := True\<rparr>;
             points = (if type it1 = Apple then 100
                       else if type it1 = Pear then 150
                       else if type it1 = Orange then 200
                       else 0)
         in (notifyChange (s\<lparr>score := score s + points\<rparr>), it1)))"

definition handleMiss :: "item \<Rightarrow> engine \<Rightarrow> engine" where
  "handleMiss it s =
     (let s1 = notifyChange (s\<lparr>missCount := missCount s + 1\<rparr>)
      in if missCount s1 = 1 then s1
         else if missCount s1 \<ge> 2 then gameOver FruitsMissed s1
         else s1)"

text \<open>The body of the \<open>forEach\<close> of \<open>checkCollisions\<close>, for one item.\<close>

definition collide :: "item \<Rightarrow> engine \<Rightarrow> engine \<times> item" where
  "collide it s =
     (if caught it \<or> processed it then (s, it)
      else if y it \<ge> 0.85 \<and> y it < 1.0 then
        (if zone it = basketPosition s then handleCatch it s else (s, it))
      else if y it \<ge> 1.0 then
        ((if type it \<noteq> Bomb then handleMiss it s else s), it\<lparr>processed := True\<rparr>)
      else (s, it))"

text \<open>
  The \<open>forEach\<close> itself: the items are visited in order, each against the engine as the
  items before it left it. The body never reads or replaces the array \<open>this.items\<close>,
  so the visited items are collected beside the engine and stored at the end.
\<close>

fun forEachCollide :: "item list \<Rightarrow> engine \<Rightarrow> engine \<times> item list" where
  "forEachCollide [] s = (s, [])"
| "forEachCollide (it # rest) s =
     (case collide it s of (s1, it1) \<Rightarrow>
        (case forEachCollide rest s1 of (s2, rest1) \<Rightarrow> (s2, it1 # rest1)))"

definition checkCollisions :: "engine \<Rightarrow> engine" where
  "checkCollisions s =
     (case forEachCollide (items s) s of (s1, its) \<Rightarrow> s1\<lparr>items := its\<rparr>)"

subsection \<open>The update tick\<close>

text \<open>
  \<open>update\<close> is the composition of its five numbered steps; each step is a function of
  its own so that the state between two steps can be named: \<open>levelTimer\<close> is step 1,
  \<open>spawnItems\<close> step 2, \<open>moveItems\<close> step 3, \<open>checkCollisions\<close> step 4 and
  \<open>removeOffScreen\<close> step 5.

  Step 3 divides by \<open>currentDropTime\<close>. In HOL \<open>1 / 0 = 0\<close>, in JavaScript it is
  \<open>Infinity\<close>; the difference never shows, since the drop time of a reachable engine
  is at least 0.5 (\<open>floored\<close> below).
\<close>

definition levelTimer :: "real \<Rightarrow> engine \<Rightarrow> engine" where
  "levelTimer deltaTime s =
     (let s1 = s\<lparr>currentLevelTime := currentLevelTime s + deltaTime\<rparr>
      in if currentLevelTime s1 \<ge> levelDuration s1 then levelUp s1 else s1)"

definition spawnItems :: "real \<Rightarrow> real \<times> real \<times> real \<Rightarrow> engine \<Rightarrow> engine" where
  "spawnItems timestamp rnd s =
     (case rnd of (rndType, rndZone, rndInterval) \<Rightarrow>
        if timestamp > lastSpawnTime s + nextSpawnInterval s
        then scheduleNextSpawn rndInterval
               ((spawnItem rndType rndZone s)\<lparr>lastSpawnTime := timestamp\<rparr>)
        else s)"

definition moveItems :: "real \<Rightarrow> engine \<Rightarrow> engine" where
  "moveItems deltaTime s =
     (let dropSpeed = 1.0 / currentDropTime s
      in s\<lparr>items := map (\<lambda>it. it\<lparr>y := y it + dropSpeed * deltaTime\<rparr>) (items s)\<rparr>)"

definition removeOffScreen :: "engine \<Rightarrow> engine" where
  "removeOffScreen s =
     s\<lparr>items := filter (\<lambda>it. y it \<le> 1.2 \<and> \<not> caught it) (items s)\<rparr>"

text \<open>
  The engine after steps 1 to 3 of an update of an active engine (the items have moved),
  and after step 4 (the collisions are resolved, nothing is removed yet).
\<close>

definition afterMotion :: "real \<Rightarrow> real \<times> real \<times> real \<Rightarrow> engine \<Rightarrow> engine" where
  "afterMotion timestamp rnd s =
     (let deltaTime = (timestamp - lastTime s) / 1000
      in moveItems deltaTime
           (spawnItems timestamp rnd
             (levelTimer deltaTime (s\<lparr>lastTime := timestamp\<rparr>))))"

definition beforeRemoval :: "real \<Rightarrow> real \<times> real \<times> real \<Rightarrow> engine \<Rightarrow> engine" where
  "beforeRemoval timestamp rnd s = checkCollisions (afterMotion timestamp rnd s)"

definition update :: "real \<Rightarrow> real \<times> real \<times> real \<Rightarrow> engine \<Rightarrow> engine" where
  "update timestamp rnd s =
     (if \<not> isGameActive s then s
      else removeOffScreen (beforeRemoval timestamp rnd s))"

subsection \<open>Calls from the host page and reachable engines\<close>

text \<open>
  The host (main.js) constructs one engine and then calls its public methods. A call
  carries the values that \<open>Math.random()\<close> and \<open>performance.now()\<close> yield
  during it: \<open>Start rnd now\<close> is \<open>start()\<close>, \<open>Update timestamp (rndType, rndZone,
  rndInterval)\<close> is \<open>update(timestamp)\<close>.
\<close>

datatype call =
    Start real real
  | Stop
  | SetBasketPose string
  | Update real "real \<times> real \<times> real"
  | SetScoreChangeCallback bool
  | SetGameEndCallback bool

fun exec :: "call \<Rightarrow> engine \<Rightarrow> engine" where
  "exec (Start rnd now) s = start rnd now s"
| "exec Stop s = stop s"
| "exec (SetBasketPose poseLabel) s = setBasketPose poseLabel s"
| "exec (Update timestamp rnd) s = update timestamp rnd s"
| "exec (SetScoreChangeCallback cb) s = setScoreChangeCallback cb s"
| "exec (SetGameEndCallback cb) s = setGameEndCallback cb s"

fun run :: "call list \<Rightarrow> engine \<Rightarrow> engine" where
  "run [] s = s"
| "run (c # cs) s = run cs (exec c s)"

text \<open>
  What the environment guarantees of a call: every random draw lies in \<open>[0, 1)\<close>, and
  the clock does not run backwards (\<open>lastTime\<close> holds an earlier reading of the same
  clock).
\<close>

definition unitDraw :: "real \<Rightarrow> bool" where
  "unitDraw r = (0 \<le> r \<and> r < 1)"

fun admissible :: "call \<Rightarrow> engine \<Rightarrow> bool" where
  "admissible (Start rnd now) s = (unitDraw rnd \<and> lastTime s \<le> now)"
| "admissible (Update timestamp (rndType, rndZone, rndInterval)) s =
     (unitDraw rndType \<and> unitDraw rndZone \<and> unitDraw rndInterval \<and> lastTime s \<le> timestamp)"
| "admissible _ s = True"

inductive reachable :: "engine \<Rightarrow> bool" where
  constructed: "reachable GameEngine"
| called: "reachable s \<Longrightarrow> admissible c s \<Longrightarrow> reachable (exec c s)"


fun admissibleRun :: "call list \<Rightarrow> engine \<Rightarrow> bool" where
  "admissibleRun [] s = True"
| "admissibleRun (c # cs) s = (admissible c s \<and> admissibleRun cs (exec c s))"

subsection \<open>Invariants of reachable engines\<close>

text \<open>The drop time never falls below the floor of \<open>updateDropTime\<close>.\<close>

definition floored :: "engine \<Rightarrow> bool" where
  "floored s = (0.5 \<le> currentDropTime s)"

text \<open>The level is at least 1 and the drop time is the one \<open>updateDropTime\<close> computes from it.\<close>

definition synced :: "engine \<Rightarrow> bool" where
  "synced s =
     (1 \<le> level s \<and>
      currentDropTime s = max 0.5 (2.0 - (real_of_int (level s) - 1) * 0.2))"

text \<open>Between two calls the collection holds no caught item and none with \<open>y > 1.2\<close>.\<close>

definition tidy :: "engine \<Rightarrow> bool" where
  "tidy s = (\<forall>it \<in> set (items s). y it \<le> 1.2 \<and> \<not> caught it)"

text \<open>A processed item has reached the miss threshold.\<close>

definition pastLine :: "engine \<Rightarrow> bool" where
  "pastLine s = (\<forall>it \<in> set (items s). processed it \<longrightarrow> 1.0 \<le> y it)"

text \<open>Between two calls an item that has reached the miss threshold is processed.\<close>

definition atLine :: "engine \<Rightarrow> bool" where
  "atLine s = (\<forall>it \<in> set (items s). 1.0 \<le> y it \<longrightarrow> processed it)"

subsection \<open>Concrete runs\<close>

text \<open>
  Runs of calls on a fresh engine, used to evaluate the engine on concrete inputs. The
  level-1 drop time is 2 s, so an item falls 0.5 per second and the first spawn interval
  drawn with 0 is 1200 ms.

  \<open>appleFalling\<close>: an apple is spawned in the centre lane, under the basket; at
  timestamp 3800 it will stand at \<open>y = 0.9\<close>.
\<close>

definition appleFalling :: "call list" where
  "appleFalling =
     [SetScoreChangeCallback True, SetGameEndCallback True, Start 0 2000,
      Update 2016 (0.3, 0.5, 0)]"

text \<open>
  \<open>bombFalling\<close>: a bomb is spawned in the centre lane, under the basket, and has
  fallen to \<open>y = 0.6\<close> at timestamp 3200; at timestamp 3800 it will stand at
  \<open>y = 0.9\<close>.
\<close>

definition bombFalling :: "call list" where
  "bombFalling =
     [SetGameEndCallback True, Start 0 2000,
      Update 2016 (0.1, 0.5, 0), Update 3200 (0.3, 0, 0)]"

text \<open>
  \<open>twoBombs\<close>: a bomb is spawned in the centre lane at timestamp 2016; the next frame
  comes 1.8 s later, spawns a second bomb in the centre lane and moves both into the
  catch window (\<open>y = 0.908\<close> and \<open>y = 0.9\<close>) under the basket.
\<close>

definition twoBombs :: "call list" where
  "twoBombs =
     [SetGameEndCallback True, Start 0 2000,
      Update 2016 (0.1, 0.5, 0), Update 3816 (0.1, 0.5, 0)]"

text \<open>
  \<open>fruitsFalling\<close>: two apples are spawned in the left lane, away from the basket, at
  timestamps 2016 and 3300. \<open>threeMisses\<close>: the next frame comes 2.1 s later, spawns a
  third apple in the left lane and moves all three past \<open>y = 1.0\<close>.
\<close>

definition fruitsFalling :: "call list" where
  "fruitsFalling =
     [SetScoreChangeCallback True, SetGameEndCallback True, Start 0 2000,
      Update 2016 (0.3, 0, 0), Update 3300 (0.3, 0, 0)]"

definition threeMisses :: "call list" where
  "threeMisses = fruitsFalling @ [Update 5400 (0.3, 0, 0)]"

text \<open>
  \<open>oneMissed\<close>: two apples are spawned in the left lane, away from the basket, at
  timestamps 2016 and 3300. The first passes \<open>y = 1.0\<close> in the tick of timestamp 4100
  and is counted as a miss; after the tick of timestamp 4300 it still stands in the
  collection, at \<open>y = 1.15\<close>, and the second stands at \<open>y = 0.65\<close>.
\<close>

definition oneMissed :: "call list" where
  "oneMissed =
     [SetScoreChangeCallback True, SetGameEndCallback True, Start 0 2000,
      Update 2016 (0.3, 0, 0), Update 3000 (0.3, 0, 0), Update 3300 (0.3, 0, 0),
      Update 4100 (0.3, 0, 0), Update 4300 (0.3, 0, 0)]"

section \<open>Properties\<close>

subsection \<open>Auxiliary facts\<close>

lemmas step_defs = handleCatch_def handleMiss_def gameOver_def notifyChange_def

lemma forEach_fst:
  "fst (forEachCollide (it # rest) s) = fst (forEachCollide rest (fst (collide it s)))"
  by (simp add: case_prod_unfold)

lemma forEach_snd:
  "snd (forEachCollide (it # rest) s) =
     snd (collide it s) # snd (forEachCollide rest (fst (collide it s)))"
  by (simp add: case_prod_unfold)

lemma collide_item_frame:
  "y (snd (collide it s)) = y it \<and> type (snd (collide it s)) = type it \<and> zone (snd (collide it s)) = zone it"
  by (simp add: collide_def step_defs Let_def)

lemma collide_engine_frame:
  "currentDropTime (fst (collide it s)) = currentDropTime s \<and>
   level (fst (collide it s)) = level s \<and>
   basketPosition (fst (collide it s)) = basketPosition s \<and>
   onGameEnd (fst (collide it s)) = onGameEnd s \<and>
   onScoreChange (fst (collide it s)) = onScoreChange s \<and>
   lastTime (fst (collide it s)) = lastTime s"
  by (simp add: collide_def step_defs Let_def)

lemma collide_inactive: "\<not> isGameActive s \<Longrightarrow> \<not> isGameActive (fst (collide it s))"
  by (simp add: collide_def step_defs Let_def)

lemma collide_score_mono: "score s \<le> score (fst (collide it s))"
  by (simp add: collide_def step_defs Let_def)

lemma forEach_length: "length (snd (forEachCollide its s)) = length its"
  by (induction its arbitrary: s) (simp_all add: forEach_snd del: forEachCollide.simps(2))

lemma forEach_y: "map y (snd (forEachCollide its s)) = map y its"
  by (induction its arbitrary: s)
     (simp_all add: forEach_snd collide_item_frame del: forEachCollide.simps(2))

lemma forEach_engine_frame:
  "currentDropTime (fst (forEachCollide its s)) = currentDropTime s \<and>
   level (fst (forEachCollide its s)) = level s \<and>
   basketPosition (fst (forEachCollide its s)) = basketPosition s \<and>
   onGameEnd (fst (forEachCollide its s)) = onGameEnd s \<and>
   onScoreChange (fst (forEachCollide its s)) = onScoreChange s \<and>
   lastTime (fst (forEachCollide its s)) = lastTime s"
  by (induction its arbitrary: s)
     (simp_all add: forEach_fst collide_engine_frame del: forEachCollide.simps(2))

lemma forEach_inactive:
  "\<not> isGameActive s \<Longrightarrow> \<not> isGameActive (fst (forEachCollide its s))"
  by (induction its arbitrary: s)
     (simp_all add: forEach_fst collide_inactive del: forEachCollide.simps(2))

lemma forEach_score_mono: "score s \<le> score (fst (forEachCollide its s))"
proof (induction its arbitrary: s)
  case Nil
  show ?case by simp
next
  case (Cons it rest)
  have "score s \<le> score (fst (collide it s))" by (rule collide_score_mono)
  also have "\<dots> \<le> score (fst (forEachCollide rest (fst (collide it s))))" by (rule Cons.IH)
  finally show ?case by (simp only: forEach_fst)
qed

lemma forEach_append_fst:
  "fst (forEachCollide (xs @ ys) s) = fst (forEachCollide ys (fst (forEachCollide xs s)))"
  by (induction xs arbitrary: s) (simp_all add: forEach_fst del: forEachCollide.simps(2))

lemma forEach_append_snd:
  "snd (forEachCollide (xs @ ys) s) =
     snd (forEachCollide xs s) @ snd (forEachCollide ys (fst (forEachCollide xs s)))"
  by (induction xs arbitrary: s)
     (simp_all add: forEach_fst forEach_snd del: forEachCollide.simps(2))

lemma checkCollisions_items: "items (checkCollisions s) = snd (forEachCollide (items s) s)"
  by (simp add: checkCollisions_def case_prod_unfold)

lemma checkCollisions_more:
  "isGameActive (checkCollisions s) = isGameActive (fst (forEachCollide (items s) s)) \<and>
   score (checkCollisions s) = score (fst (forEachCollide (items s) s)) \<and>
   missCount (checkCollisions s) = missCount (fst (forEachCollide (items s) s)) \<and>
   fired (checkCollisions s) = fired (fst (forEachCollide (items s) s)) \<and>
   currentDropTime (checkCollisions s) = currentDropTime s \<and>
   level (checkCollisions s) = level s"
  by (simp add: checkCollisions_def case_prod_unfold forEach_engine_frame)



lemmas tick_defs = levelTimer_def levelUp_def updateDropTime_def notifyChange_def
  spawnItems_def spawnItem_def scheduleNextSpawn_def moveItems_def removeOffScreen_def

lemma levelTimer_frame:
  "score (levelTimer dt s) = score s \<and> missCount (levelTimer dt s) = missCount s \<and>
   items (levelTimer dt s) = items s \<and> isGameActive (levelTimer dt s) = isGameActive s"
  by (simp add: tick_defs Let_def)

lemma spawnItems_frame:
  "score (spawnItems ts rnd s) = score s \<and> missCount (spawnItems ts rnd s) = missCount s \<and>
   currentDropTime (spawnItems ts rnd s) = currentDropTime s \<and>
   isGameActive (spawnItems ts rnd s) = isGameActive s"
  by (cases rnd) (simp add: tick_defs Let_def)

lemma moveItems_frame:
  "score (moveItems dt s) = score s \<and> missCount (moveItems dt s) = missCount s \<and>
   currentDropTime (moveItems dt s) = currentDropTime s \<and>
   isGameActive (moveItems dt s) = isGameActive s"
  by (simp add: tick_defs Let_def)

lemma levelTimer_floored: "floored s \<Longrightarrow> floored (levelTimer dt s)"
  by (simp add: floored_def tick_defs Let_def max_def)

lemma beforeRemoval_floored: "floored s \<Longrightarrow> floored (beforeRemoval ts rnd s)"
proof -
  assume a: "floored s"
  have "floored (s\<lparr>lastTime := ts\<rparr>)" using a by (simp add: floored_def)
  then have "floored (levelTimer ((ts - lastTime s) / 1000) (s\<lparr>lastTime := ts\<rparr>))"
    by (rule levelTimer_floored)
  then show ?thesis
    by (simp add: floored_def beforeRemoval_def afterMotion_def Let_def checkCollisions_more
          moveItems_frame spawnItems_frame)
qed

lemma update_floored: "floored s \<Longrightarrow> floored (update ts rnd s)"
  using beforeRemoval_floored [of s ts rnd]
  by (simp add: floored_def update_def removeOffScreen_def)

lemma exec_floored: "floored s \<Longrightarrow> floored (exec c s)"
proof (cases c)
  case (Update ts rnd)
  assume "floored s"
  then show ?thesis using Update by (simp add: update_floored)
qed (simp_all add: floored_def start_def reset_def updateDropTime_def scheduleNextSpawn_def
       Let_def stop_def setBasketPose_def setScoreChangeCallback_def setGameEndCallback_def)

lemma reachable_floored: "reachable s \<Longrightarrow> floored s"
proof (induction rule: reachable.induct)
  case constructed
  show ?case by (simp add: floored_def GameEngine_def)
next
  case (called s c)
  then show ?case by (simp add: exec_floored)
qed

lemma update_tidy: "tidy s \<Longrightarrow> tidy (update ts rnd s)"
  by (simp add: tidy_def update_def removeOffScreen_def)

lemma exec_tidy: "tidy s \<Longrightarrow> tidy (exec c s)"
proof (cases c)
  case (Update ts rnd)
  assume "tidy s"
  then show ?thesis using Update by (simp add: update_tidy)
qed (simp_all add: tidy_def start_def reset_def updateDropTime_def scheduleNextSpawn_def Let_def
       stop_def setBasketPose_def setScoreChangeCallback_def setGameEndCallback_def)

lemma reachable_tidy: "reachable s \<Longrightarrow> tidy s"
  by (induction rule: reachable.induct) (simp_all add: exec_tidy, simp add: tidy_def GameEngine_def)

lemma update_score_mono: "score s \<le> score (update ts rnd s)"
proof (cases "isGameActive s")
  case False
  then show ?thesis by (simp add: update_def)
next
  case True
  let ?m = "afterMotion ts rnd s"
  have "score ?m = score s"
    by (simp add: afterMotion_def Let_def moveItems_frame spawnItems_frame levelTimer_frame)
  moreover have "score ?m \<le> score (fst (forEachCollide (items ?m) ?m))"
    by (rule forEach_score_mono)
  ultimately show ?thesis using True
    by (simp add: update_def removeOffScreen_def beforeRemoval_def checkCollisions_more)
qed



lemma exec_score_mono: "\<forall>rnd now. c \<noteq> Start rnd now \<Longrightarrow> score s \<le> score (exec c s)"
proof (cases c)
  case (Update ts rnd)
  then show ?thesis by (simp add: update_score_mono)
qed (simp_all add: stop_def setBasketPose_def setScoreChangeCallback_def setGameEndCallback_def)

lemma levelUp_synced:
  "currentDropTime (levelUp s) = max 0.5 (2.0 - (real_of_int (level (levelUp s)) - 1) * 0.2)"
  by (simp add: levelUp_def updateDropTime_def notifyChange_def)

lemma levelTimer_synced: "synced s \<Longrightarrow> synced (levelTimer dt s)"
  by (simp add: synced_def tick_defs Let_def)

lemma levelTimer_level_mono: "level s \<le> level (levelTimer dt s)"
  by (simp add: tick_defs Let_def)

lemma spawnItems_level: "level (spawnItems ts rnd s) = level s"
  by (cases rnd) (simp add: tick_defs Let_def)

lemma moveItems_level: "level (moveItems dt s) = level s"
  by (simp add: tick_defs Let_def)

lemma update_synced: "synced s \<Longrightarrow> synced (update ts rnd s)"
proof -
  assume a: "synced s"
  have "synced (s\<lparr>lastTime := ts\<rparr>)" using a by (simp add: synced_def)
  then have "synced (levelTimer ((ts - lastTime s) / 1000) (s\<lparr>lastTime := ts\<rparr>))"
    by (rule levelTimer_synced)
  then have "synced (beforeRemoval ts rnd s)"
    by (simp add: synced_def beforeRemoval_def afterMotion_def Let_def checkCollisions_more
          moveItems_frame spawnItems_frame moveItems_level spawnItems_level)
  then show ?thesis using a
    by (simp add: synced_def update_def removeOffScreen_def)
qed

lemma exec_synced: "synced s \<Longrightarrow> synced (exec c s)"
proof (cases c)
  case (Update ts rnd)
  assume "synced s"
  then show ?thesis using Update by (simp add: update_synced)
qed (simp_all add: synced_def start_def reset_def updateDropTime_def scheduleNextSpawn_def
       Let_def stop_def setBasketPose_def setScoreChangeCallback_def setGameEndCallback_def)

lemma reachable_synced: "reachable s \<Longrightarrow> synced s"
proof (induction rule: reachable.induct)
  case constructed
  show ?case by (simp add: synced_def GameEngine_def)
next
  case (called s c)
  then show ?case by (simp add: exec_synced)
qed

lemmas engine_defs = GameEngine_def start_def reset_def stop_def setBasketPose_def
  setScoreChangeCallback_def setGameEndCallback_def update_def beforeRemoval_def afterMotion_def
  checkCollisions_def collide_def handleCatch_def handleMiss_def gameOver_def notifyChange_def
  levelTimer_def levelUp_def updateDropTime_def spawnItems_def spawnItem_def
  scheduleNextSpawn_def moveItems_def removeOffScreen_def getRandomItemType_def zoneAt_def
  unitDraw_def Let_def

lemma admissibleRun_reachable:
  "reachable s \<Longrightarrow> admissibleRun cs s \<Longrightarrow> reachable (run cs s)"
proof (induction cs arbitrary: s)
  case Nil
  then show ?case by simp
next
  case (Cons c cs)
  have "reachable (exec c s)" using Cons.prems by (intro reachable.called) simp_all
  then show ?case using Cons.prems by (simp add: Cons.IH)
qed

lemma appleFalling_reachable: "reachable (run appleFalling GameEngine)"
  by (rule admissibleRun_reachable [OF reachable.constructed])
     (simp add: appleFalling_def engine_defs)

lemma bombFalling_reachable: "reachable (run bombFalling GameEngine)"
  by (rule admissibleRun_reachable [OF reachable.constructed])
     (simp add: bombFalling_def engine_defs)

subsection \<open>Stopping\<close>

text \<open>
  C9. \<open>stop()\<close> sets \<open>isGameActive\<close> to false and changes no other field of the engine
  (nothing is notified either), and calling it twice gives the same engine as calling
  it once.
\<close>

theorem stop_only_deactivates:
  "stop s = s\<lparr>isGameActive := False\<rparr> \<and> fired (stop s) = fired s \<and> stop (stop s) = stop s"
  by (simp add: stop_def)

subsection \<open>Drop time\<close>

text \<open>
  C5. For every level \<open>L \<ge> 1\<close>, \<open>updateDropTime\<close> at level \<open>L\<close> stores
  \<open>max(0.5, 2.0 - (L - 1) * 0.2)\<close>; the value lies between 0.5 and 2.0 and does not grow
  with the level. \<open>levelUp\<close> stores the value of its new level, and every reachable
  engine holds the value of its level, which is at least 1.
\<close>

theorem drop_time_by_level:
  assumes "1 \<le> L" and "L \<le> M" and "reachable e"
  shows "currentDropTime (updateDropTime (s\<lparr>level := L\<rparr>))
           = max 0.5 (2.0 - (real_of_int L - 1) * 0.2)
       \<and> 0.5 \<le> currentDropTime (updateDropTime (s\<lparr>level := L\<rparr>))
       \<and> currentDropTime (updateDropTime (s\<lparr>level := L\<rparr>)) \<le> 2.0
       \<and> currentDropTime (updateDropTime (s\<lparr>level := M\<rparr>))
           \<le> currentDropTime (updateDropTime (s\<lparr>level := L\<rparr>))
       \<and> level (levelUp s) = level s + 1
       \<and> currentDropTime (levelUp s)
           = max 0.5 (2.0 - (real_of_int (level (levelUp s)) - 1) * 0.2)
       \<and> 1 \<le> level e
       \<and> currentDropTime e = max 0.5 (2.0 - (real_of_int (level e) - 1) * 0.2)"
proof -
  have formula: "currentDropTime (updateDropTime (s\<lparr>level := L\<rparr>))
                   = max 0.5 (2.0 - (real_of_int L - 1) * 0.2)"
    by (simp add: updateDropTime_def)
  have lower: "0.5 \<le> currentDropTime (updateDropTime (s\<lparr>level := L\<rparr>))"
    by (simp add: updateDropTime_def)
  have upper: "currentDropTime (updateDropTime (s\<lparr>level := L\<rparr>)) \<le> 2.0"
    using assms(1) by (simp add: updateDropTime_def)
  have "real_of_int L \<le> real_of_int M" using assms(2) by simp
  then have mono: "currentDropTime (updateDropTime (s\<lparr>level := M\<rparr>))
                     \<le> currentDropTime (updateDropTime (s\<lparr>level := L\<rparr>))"
    by (simp add: updateDropTime_def max_def)
  have lvl: "level (levelUp s) = level s + 1"
    by (simp add: levelUp_def updateDropTime_def notifyChange_def)
  have "synced e" using assms(3) by (rule reachable_synced)
  then have inv: "1 \<le> level e
      \<and> currentDropTime e = max 0.5 (2.0 - (real_of_int (level e) - 1) * 0.2)"
    by (simp only: synced_def)
  from formula lower upper mono lvl levelUp_synced [of s] inv show ?thesis by blast
qed

theorem drop_time_by_level_witness:
  "currentDropTime (updateDropTime (GameEngine\<lparr>level := 3\<rparr>)) = 1.6
   \<and> currentDropTime (updateDropTime (GameEngine\<lparr>level := 12\<rparr>)) = 0.5
   \<and> currentDropTime (levelUp GameEngine) = 1.8
   \<and> level (run appleFalling GameEngine) = 1
   \<and> currentDropTime (run appleFalling GameEngine) = 2"
proof -
  have h1: "(1::int) \<le> 3" by simp
  have h2: "(3::int) \<le> 12" by simp
  have h3: "(1::int) \<le> 12" by simp
  show ?thesis
    using drop_time_by_level [OF h1 h2 appleFalling_reachable, of GameEngine]
      drop_time_by_level [OF h3 order_refl appleFalling_reachable, of GameEngine]
    by (simp add: appleFalling_def engine_defs)
qed

subsection \<open>Score\<close>

text \<open>
  C10. A call other than \<open>start()\<close> never lowers the score, so the score does not
  decrease along any sequence of calls without \<open>start()\<close>; \<open>start()\<close> sets it to 0.
\<close>

theorem score_never_decreases:
  assumes "\<forall>c \<in> set cs. \<forall>rnd now. c \<noteq> Start rnd now"
  shows "score s \<le> score (run cs s) \<and> score (exec (Start rnd now) s) = 0"
proof -
  from assms have "score s \<le> score (run cs s)"
  proof (induction cs arbitrary: s)
    case Nil
    show ?case by simp
  next
    case (Cons c cs)
    have "score s \<le> score (exec c s)" using Cons.prems by (simp add: exec_score_mono)
    also have "\<dots> \<le> score (run cs (exec c s))" using Cons.prems by (intro Cons.IH) simp
    finally show ?case by simp
  qed
  moreover have "score (exec (Start rnd now) s) = 0"
    by (simp add: start_def reset_def updateDropTime_def scheduleNextSpawn_def Let_def)
  ultimately show ?thesis by simp
qed

theorem score_never_decreases_witness:
  "score (run appleFalling GameEngine) = 0
   \<and> score (run [Update 3800 (0.1, 0, 0), Stop] (run appleFalling GameEngine)) = 100
   \<and> score (exec (Start 0 9000)
        (run [Update 3800 (0.1, 0, 0), Stop] (run appleFalling GameEngine))) = 0"
proof -
  have h: "\<forall>c \<in> set [Update 3800 (0.1, 0, 0), Stop]. \<forall>rnd now. c \<noteq> Start rnd now"
    by simp
  show ?thesis
    using score_never_decreases [OF h, of "run appleFalling GameEngine" 0 9000]
      score_never_decreases [OF h,
        of "run [Update 3800 (0.1, 0, 0), Stop] (run appleFalling GameEngine)" 0 9000]
    by (simp add: appleFalling_def engine_defs)
qed

subsection \<open>Removal of items\<close>

text \<open>
  C8. After an update of a reachable engine no item of the collection has \<open>y > 1.2\<close>
  and none is caught. When the engine is active, step 5 keeps exactly the items of the
  collection of step 4 that have neither \<open>y > 1.2\<close> nor \<open>caught\<close>, in their order.
\<close>

theorem update_removes_offscreen_and_caught:
  assumes "reachable s"
  shows "(\<forall>it \<in> set (items (update ts rnd s)). \<not> y it > 1.2 \<and> \<not> caught it)
       \<and> (isGameActive s \<longrightarrow>
            items (update ts rnd s)
              = filter (\<lambda>it. \<not> (y it > 1.2 \<or> caught it)) (items (beforeRemoval ts rnd s)))"
proof -
  have "tidy s" using assms by (rule reachable_tidy)
  then have "tidy (update ts rnd s)" by (rule update_tidy)
  then have a: "\<forall>it \<in> set (items (update ts rnd s)). \<not> y it > 1.2 \<and> \<not> caught it"
    by (auto simp: tidy_def)
  have b: "isGameActive s \<longrightarrow>
            items (update ts rnd s)
              = filter (\<lambda>it. \<not> (y it > 1.2 \<or> caught it)) (items (beforeRemoval ts rnd s))"
    by (simp add: update_def removeOffScreen_def not_less)
  from a b show ?thesis by blast
qed

theorem update_removes_offscreen_and_caught_witness:
  "isGameActive (run appleFalling GameEngine)
   \<and> map caught (items (beforeRemoval 3800 (0.1, 0, 0) (run appleFalling GameEngine)))
       = [True, False]
   \<and> items (update 3800 (0.1, 0, 0) (run appleFalling GameEngine))
       = [\<lparr>type = Bomb, zone = LEFT, y = 0.892, caught = False, processed = False\<rparr>]"
  using update_removes_offscreen_and_caught
          [OF appleFalling_reachable, of 3800 "(0.1, 0, 0)"]
  by (simp add: appleFalling_def engine_defs)

subsection \<open>Catches\<close>

lemma collide_score:
  "score (fst (collide it s)) =
     score s + (if \<not> caught it \<and> \<not> processed it \<and> 0.85 \<le> y it \<and> y it < 1.0
                   \<and> zone it = basketPosition s
                then (case type it of Apple \<Rightarrow> 100 | Pear \<Rightarrow> 150 | Orange \<Rightarrow> 200 | Bomb \<Rightarrow> 0)
                else 0)"
  by (cases "type it") (simp_all add: collide_def step_defs Let_def)

lemma collide_caught:
  "caught (snd (collide it s)) =
     (caught it \<or> (\<not> processed it \<and> 0.85 \<le> y it \<and> y it < 1.0
                     \<and> zone it = basketPosition s \<and> type it \<noteq> Bomb))"
  by (simp add: collide_def step_defs Let_def)

lemma forEach_score:
  "score (fst (forEachCollide its s)) =
     score s + (\<Sum>it\<leftarrow>its.
                  if \<not> caught it \<and> \<not> processed it \<and> 0.85 \<le> y it \<and> y it < 1.0
                     \<and> zone it = basketPosition s
                  then (case type it of Apple \<Rightarrow> 100 | Pear \<Rightarrow> 150 | Orange \<Rightarrow> 200 | Bomb \<Rightarrow> 0)
                  else 0)"
proof (induction its arbitrary: s)
  case Nil
  show ?case by simp
next
  case (Cons it rest)
  have b: "basketPosition (fst (collide it s)) = basketPosition s"
    by (simp add: collide_engine_frame)
  show ?case
    by (simp only: forEach_fst Cons.IH [of "fst (collide it s)"] b collide_score [of it s]
          list.map sum_list.Cons add.assoc)
qed

text \<open>
  C7. Resolving one item raises the score by 100 for an apple, 150 for a pear and 200
  for an orange exactly when the item is neither caught nor processed, its \<open>y\<close> lies in
  \<open>[0.85, 1.0)\<close> and its zone is the basket position; otherwise the score is unchanged.
  An item becomes caught under exactly these conditions (and is then not a bomb). Over a
  whole tick the score grows by the sum of these rewards over the moved items, and no
  other step of the tick changes it.
\<close>

theorem catch_rewards:
  "score (fst (collide it s)) =
     score s + (if \<not> caught it \<and> \<not> processed it \<and> 0.85 \<le> y it \<and> y it < 1.0
                   \<and> zone it = basketPosition s
                then (case type it of Apple \<Rightarrow> 100 | Pear \<Rightarrow> 150 | Orange \<Rightarrow> 200 | Bomb \<Rightarrow> 0)
                else 0)
   \<and> caught (snd (collide it s)) =
       (caught it \<or> (\<not> processed it \<and> 0.85 \<le> y it \<and> y it < 1.0
                       \<and> zone it = basketPosition s \<and> type it \<noteq> Bomb))
   \<and> score (checkCollisions s) =
       score s + (\<Sum>it\<leftarrow>items s.
                    if \<not> caught it \<and> \<not> processed it \<and> 0.85 \<le> y it \<and> y it < 1.0
                       \<and> zone it = basketPosition s
                    then (case type it of Apple \<Rightarrow> 100 | Pear \<Rightarrow> 150 | Orange \<Rightarrow> 200 | Bomb \<Rightarrow> 0)
                    else 0)
   \<and> score (afterMotion ts rnd s) = score s
   \<and> score (update ts rnd s) =
       (if isGameActive s then score (checkCollisions (afterMotion ts rnd s)) else score s)"
proof -
  have a: "score (checkCollisions s) =
       score s + (\<Sum>it\<leftarrow>items s.
                    if \<not> caught it \<and> \<not> processed it \<and> 0.85 \<le> y it \<and> y it < 1.0
                       \<and> zone it = basketPosition s
                    then (case type it of Apple \<Rightarrow> 100 | Pear \<Rightarrow> 150 | Orange \<Rightarrow> 200 | Bomb \<Rightarrow> 0)
                    else 0)"
    using forEach_score [of "items s" s] by (simp only: checkCollisions_more)
  have b: "score (afterMotion ts rnd s) = score s"
    by (simp add: afterMotion_def Let_def moveItems_frame spawnItems_frame levelTimer_frame)
  have c: "score (update ts rnd s) =
       (if isGameActive s then score (checkCollisions (afterMotion ts rnd s)) else score s)"
    by (simp add: update_def removeOffScreen_def beforeRemoval_def)
  from collide_score [of it s] collide_caught [of it s] a b c show ?thesis by blast
qed

theorem catch_rewards_witness:
  "score (fst (collide
      \<lparr>type = Pear, zone = CENTER, y = 0.9, caught = False, processed = False\<rparr>
      (run appleFalling GameEngine))) = 150
   \<and> score (checkCollisions (afterMotion 3800 (0.1, 0, 0) (run appleFalling GameEngine))) = 100
   \<and> score (update 3800 (0.1, 0, 0) (run appleFalling GameEngine)) = 100"
  using catch_rewards
          [of "\<lparr>type = Pear, zone = CENTER, y = 0.9, caught = False, processed = False\<rparr>"
              "run appleFalling GameEngine" 3800 "(0.1, 0, 0)"]
        catch_rewards
          [of "\<lparr>type = Pear, zone = CENTER, y = 0.9, caught = False, processed = False\<rparr>"
              "afterMotion 3800 (0.1, 0, 0) (run appleFalling GameEngine)" 3800 "(0.1, 0, 0)"]
  by (simp add: appleFalling_def engine_defs)

subsection \<open>Misses\<close>

lemma collide_missCount:
  "missCount (fst (collide it s)) =
     missCount s + (if type it \<noteq> Bomb \<and> \<not> caught it \<and> \<not> processed it \<and> 1.0 \<le> y it
                    then 1 else 0)"
  by (simp add: collide_def step_defs Let_def)

lemma forEach_missCount:
  "missCount (fst (forEachCollide its s)) =
     missCount s + int (length (filter
       (\<lambda>it. type it \<noteq> Bomb \<and> \<not> caught it \<and> \<not> processed it \<and> 1.0 \<le> y it) its))"
proof (induction its arbitrary: s)
  case Nil
  show ?case by simp
next
  case (Cons it rest)
  show ?case
    by (simp add: forEach_fst Cons.IH [of "fst (collide it s)"] collide_missCount [of it s]
          del: forEachCollide.simps(2))
qed

subsection \<open>Motion\<close>

lemma spawnItems_items:
  "take (length (items s)) (items (spawnItems ts rnd s)) = items s"
  by (cases rnd) (simp add: tick_defs Let_def)

text \<open>
  C6. In an update of an active engine with \<open>deltaTime = (timestamp - lastTime) / 1000\<close>,
  let \<open>s1\<close> be the engine after the level timer and the spawn check. The motion step
  replaces the \<open>y\<close> of every item of \<open>s1\<close> (the items held before the tick, followed by
  the item spawned in this tick, if any) by \<open>y + deltaTime * (1 / currentDropTime)\<close>,
  where \<open>currentDropTime\<close> is the value of the field at that step. The resolution step
  changes no \<open>y\<close>, and the removal step only drops items. For a reachable engine the
  drop time is positive, so with \<open>lastTime \<le> timestamp\<close> (the clock has not run
  backwards) no \<open>y\<close> decreases.
\<close>

theorem items_fall_linearly:
  assumes "deltaTime = (timestamp - lastTime s) / 1000"
    and "s1 = spawnItems timestamp rnd (levelTimer deltaTime (s\<lparr>lastTime := timestamp\<rparr>))"
    and "reachable s" and "isGameActive s"
    and "lastTime s \<le> timestamp"
  shows "afterMotion timestamp rnd s = moveItems deltaTime s1
       \<and> take (length (items s)) (items s1) = items s
       \<and> items (moveItems deltaTime s1) =
           map (\<lambda>it. it\<lparr>y := y it + deltaTime * (1 / currentDropTime s1)\<rparr>) (items s1)
       \<and> map y (items (beforeRemoval timestamp rnd s)) =
           map (\<lambda>it. y it + deltaTime * (1 / currentDropTime s1)) (items s1)
       \<and> set (items (update timestamp rnd s)) \<subseteq> set (items (beforeRemoval timestamp rnd s))
       \<and> 0 < currentDropTime s1
       \<and> list_all2 (\<lambda>before after. y before \<le> y after)
           (items s1) (items (beforeRemoval timestamp rnd s))"
proof -
  let ?after = "items (beforeRemoval timestamp rnd s)"
  let ?step = "deltaTime * (1 / currentDropTime s1)"
  have a: "afterMotion timestamp rnd s = moveItems deltaTime s1"
    by (simp add: afterMotion_def Let_def assms(1,2))
  have b: "take (length (items s)) (items s1) = items s"
    using spawnItems_items [of "levelTimer deltaTime (s\<lparr>lastTime := timestamp\<rparr>)" timestamp rnd]
    by (simp add: assms(2) levelTimer_frame)
  have c: "items (moveItems deltaTime s1) =
           map (\<lambda>it. it\<lparr>y := y it + ?step\<rparr>) (items s1)"
    by (simp add: moveItems_def Let_def mult.commute)
  have d: "map y ?after = map (\<lambda>it. y it + ?step) (items s1)"
    by (simp add: beforeRemoval_def a checkCollisions_items forEach_y c comp_def)
  have e: "set (items (update timestamp rnd s)) \<subseteq> set ?after"
    using assms(4) by (auto simp: update_def removeOffScreen_def)
  have "floored s" using assms(3) by (rule reachable_floored)
  then have "floored (s\<lparr>lastTime := timestamp\<rparr>)" by (simp add: floored_def)
  then have "floored (levelTimer deltaTime (s\<lparr>lastTime := timestamp\<rparr>))"
    by (rule levelTimer_floored)
  then have f: "0 < currentDropTime s1"
    by (simp add: floored_def assms(2) spawnItems_frame)
  have "0 \<le> deltaTime" using assms(1,5) by simp
  with f have step: "0 \<le> ?step" by simp
  have len: "length (items s1) = length ?after"
    using arg_cong [OF d, of length] by simp
  have g: "list_all2 (\<lambda>before after. y before \<le> y after) (items s1) ?after"
  proof (rule list_all2_all_nthI [OF len])
    fix n assume n: "n < length (items s1)"
    have "y (?after ! n) = map y ?after ! n" using n len by simp
    also have "\<dots> = y (items s1 ! n) + ?step" using n by (simp only: d nth_map)
    finally show "y (items s1 ! n) \<le> y (?after ! n)" using step by simp
  qed
  from a b c d e f g show ?thesis by blast
qed

theorem items_fall_linearly_witness:
  "lastTime (run bombFalling GameEngine) \<le> 3800
   \<and> map y (items (run bombFalling GameEngine)) = [0.6]
   \<and> map y (items (beforeRemoval 3800 (0.3, 0, 0) (run bombFalling GameEngine))) = [0.9, 0.3]"
proof -
  have h: "lastTime (run bombFalling GameEngine) \<le> 3800"
    by (simp add: bombFalling_def engine_defs)
  have a: "isGameActive (run bombFalling GameEngine)"
    by (simp add: bombFalling_def engine_defs)
  show ?thesis
    using items_fall_linearly [OF refl refl bombFalling_reachable a h, of "(0.3, 0, 0)"]
    by (simp add: bombFalling_def engine_defs)
qed

subsection \<open>Bombs\<close>

lemma collide_fired_grows: "\<exists>ev. fired (fst (collide it s)) = fired s @ ev"
  by (simp add: collide_def step_defs Let_def)

lemma forEach_fired_grows: "\<exists>ev. fired (fst (forEachCollide its s)) = fired s @ ev"
proof (induction its arbitrary: s)
  case Nil
  show ?case by simp
next
  case (Cons it rest)
  obtain ev1 where e1: "fired (fst (collide it s)) = fired s @ ev1"
    using collide_fired_grows [of it s] by blast
  obtain ev2 where e2: "fired (fst (forEachCollide rest (fst (collide it s))))
                          = fired (fst (collide it s)) @ ev2"
    using Cons.IH [of "fst (collide it s)"] by blast
  show ?case by (simp only: forEach_fst e2 e1 append_assoc) blast
qed

lemma bomb_collide:
  assumes "type it = Bomb" and "zone it = basketPosition e" and "0.85 \<le> y it" and "y it < 1.0"
    and "\<not> caught it" and "\<not> processed it"
  shows "collide it e = (gameOver BombTouched e, it)"
  using assms by (simp add: collide_def handleCatch_def)

text \<open>A pass over a collection that holds an unresolved bomb under the basket.\<close>

lemma bomb_pass:
  assumes "k < length (items s)"
    and "type (items s ! k) = Bomb"
    and "zone (items s ! k) = basketPosition s"
    and "0.85 \<le> y (items s ! k)" and "y (items s ! k) < 1.0"
    and "\<not> caught (items s ! k)" and "\<not> processed (items s ! k)"
    and "e = fst (forEachCollide (take k (items s)) s)"
  shows "collide (items s ! k) e = (gameOver BombTouched e, items s ! k)"
    and "fired (gameOver BombTouched e) =
           fired e @ (if onGameEnd s then [GameEnd (score e) (level s) BombTouched] else [])"
    and "\<not> isGameActive (checkCollisions s)"
    and "onGameEnd s \<longrightarrow>
            GameEnd (score e) (level s) BombTouched \<in> set (fired (checkCollisions s))"
    and "items (checkCollisions s) ! k = items s ! k"
proof -
  let ?it = "items s ! k"
  let ?rest = "drop (Suc k) (items s)"
  have fr: "basketPosition e = basketPosition s" "onGameEnd e = onGameEnd s" "level e = level s"
    by (simp_all add: assms(8) forEach_engine_frame)
  show a: "collide ?it e = (gameOver BombTouched e, ?it)"
    using assms(2-7) fr(1) by (intro bomb_collide) simp_all
  have b: "\<not> isGameActive (gameOver BombTouched e)"
    by (simp add: gameOver_def Let_def)
  show c: "fired (gameOver BombTouched e) =
           fired e @ (if onGameEnd s then [GameEnd (score e) (level s) BombTouched] else [])"
    using fr by (simp add: gameOver_def Let_def)
  have split: "items s = take k (items s) @ ?it # ?rest"
    using assms(1) by (rule id_take_nth_drop)
  have "fst (forEachCollide (items s) s)
          = fst (forEachCollide (?it # ?rest) e)"
    using arg_cong [OF split, of "\<lambda>l. fst (forEachCollide l s)"]
    by (simp only: forEach_append_fst assms(8))
  then have last: "fst (forEachCollide (items s) s)
          = fst (forEachCollide ?rest (gameOver BombTouched e))"
    by (simp only: forEach_fst a fst_conv)
  show "\<not> isGameActive (checkCollisions s)"
    using forEach_inactive [OF b, of ?rest] by (simp add: checkCollisions_more last)
  obtain ev where "fired (fst (forEachCollide ?rest (gameOver BombTouched e)))
                     = fired (gameOver BombTouched e) @ ev"
    using forEach_fired_grows [of ?rest "gameOver BombTouched e"] by blast
  then show "onGameEnd s \<longrightarrow>
            GameEnd (score e) (level s) BombTouched \<in> set (fired (checkCollisions s))"
    by (simp add: checkCollisions_more last c)
  have "snd (forEachCollide (items s) s)
          = snd (forEachCollide (take k (items s)) s) @ snd (forEachCollide (?it # ?rest) e)"
    using arg_cong [OF split, of "\<lambda>l. snd (forEachCollide l s)"]
    by (simp only: forEach_append_snd assms(8))
  moreover have "length (snd (forEachCollide (take k (items s)) s)) = k"
    using assms(1) by (simp add: forEach_length)
  ultimately show "items (checkCollisions s) ! k = ?it"
    by (simp add: checkCollisions_items nth_append forEach_snd a del: forEachCollide.simps(2))
qed

lemma spawnItems_item:
  "it \<in> set (items (spawnItems ts rnd s)) \<Longrightarrow>
   it \<in> set (items s) \<or> (\<not> caught it \<and> \<not> processed it)"
  by (cases rnd) (auto simp: tick_defs Let_def split: if_splits)

text \<open>
  Where the items stand when the collisions are checked: each is an item held before the
  tick, or the item spawned in this tick, moved down by the same distance.
\<close>

lemma afterMotion_item:
  assumes "it \<in> set (items (afterMotion ts rnd s))"
  shows "\<exists>old. it = old\<lparr>y := y old
                    + 1 / currentDropTime (afterMotion ts rnd s) * ((ts - lastTime s) / 1000)\<rparr>
               \<and> (old \<in> set (items s) \<or> (\<not> caught old \<and> \<not> processed old))"
proof -
  let ?dt = "(ts - lastTime s) / 1000"
  let ?s1 = "spawnItems ts rnd (levelTimer ?dt (s\<lparr>lastTime := ts\<rparr>))"
  have am: "afterMotion ts rnd s = moveItems ?dt ?s1"
    by (simp add: afterMotion_def Let_def)
  have "it \<in> set (map (\<lambda>it. it\<lparr>y := y it + 1 / currentDropTime ?s1 * ?dt\<rparr>) (items ?s1))"
    using assms by (simp add: am moveItems_def Let_def)
  then obtain old where old: "old \<in> set (items ?s1)"
      and it: "it = old\<lparr>y := y old + 1 / currentDropTime ?s1 * ?dt\<rparr>"
    by auto
  have "old \<in> set (items s) \<or> (\<not> caught old \<and> \<not> processed old)"
    using spawnItems_item [OF old] by (simp add: levelTimer_frame)
  moreover have "currentDropTime (afterMotion ts rnd s) = currentDropTime ?s1"
    by (simp add: am moveItems_frame)
  ultimately show ?thesis using it by auto
qed

lemma afterMotion_floored: "floored s \<Longrightarrow> floored (afterMotion ts rnd s)"
proof -
  assume "floored s"
  then have "floored (s\<lparr>lastTime := ts\<rparr>)" by (simp add: floored_def)
  then have "floored (levelTimer ((ts - lastTime s) / 1000) (s\<lparr>lastTime := ts\<rparr>))"
    by (rule levelTimer_floored)
  then show ?thesis
    by (simp add: floored_def afterMotion_def Let_def moveItems_frame spawnItems_frame)
qed

lemma afterMotion_unresolved:
  assumes "floored s" and "tidy s" and "pastLine s" and "lastTime s \<le> ts"
    and "it \<in> set (items (afterMotion ts rnd s))"
  shows "\<not> caught it \<and> (processed it \<longrightarrow> 1.0 \<le> y it)"
proof -
  let ?d = "1 / currentDropTime (afterMotion ts rnd s) * ((ts - lastTime s) / 1000)"
  obtain old where old: "it = old\<lparr>y := y old + ?d\<rparr>"
      and src: "old \<in> set (items s) \<or> (\<not> caught old \<and> \<not> processed old)"
    using afterMotion_item [OF assms(5)] by blast
  have "0 < currentDropTime (afterMotion ts rnd s)"
    using afterMotion_floored [OF assms(1), of ts rnd] by (simp add: floored_def)
  moreover have "0 \<le> (ts - lastTime s) / 1000" using assms(4) by simp
  ultimately have d: "0 \<le> ?d" by simp
  have c: "\<not> caught old" using src assms(2) by (auto simp: tidy_def)
  have p: "processed old \<longrightarrow> 1.0 \<le> y old" using src assms(3) by (auto simp: pastLine_def)
  have "y old \<le> y it" using old d by simp
  with c p old show ?thesis by auto
qed

lemma collide_pastLine:
  "processed it \<longrightarrow> 1.0 \<le> y it \<Longrightarrow>
   processed (snd (collide it s)) \<longrightarrow> 1.0 \<le> y (snd (collide it s))"
  by (simp add: collide_def step_defs Let_def)

lemma forEach_pastLine:
  "\<forall>it \<in> set its. processed it \<longrightarrow> 1.0 \<le> y it \<Longrightarrow>
   \<forall>it \<in> set (snd (forEachCollide its s)). processed it \<longrightarrow> 1.0 \<le> y it"
proof (induction its arbitrary: s)
  case Nil
  show ?case by simp
next
  case (Cons it rest)
  have "processed (snd (collide it s)) \<longrightarrow> 1.0 \<le> y (snd (collide it s))"
    using Cons.prems by (intro collide_pastLine) simp
  moreover have "\<forall>it \<in> set (snd (forEachCollide rest (fst (collide it s)))).
                   processed it \<longrightarrow> 1.0 \<le> y it"
    using Cons.prems by (intro Cons.IH) simp
  ultimately show ?case by (simp add: forEach_snd del: forEachCollide.simps(2))
qed

lemma update_pastLine:
  assumes "floored s" and "tidy s" and "pastLine s" and "lastTime s \<le> ts"
  shows "pastLine (update ts rnd s)"
proof (cases "isGameActive s")
  case False
  then show ?thesis using assms(3) by (simp add: update_def)
next
  case True
  have "\<forall>it \<in> set (items (afterMotion ts rnd s)). processed it \<longrightarrow> 1.0 \<le> y it"
    using afterMotion_unresolved [OF assms] by blast
  then have "\<forall>it \<in> set (items (beforeRemoval ts rnd s)). processed it \<longrightarrow> 1.0 \<le> y it"
    unfolding beforeRemoval_def checkCollisions_items by (rule forEach_pastLine)
  then show ?thesis using True
    by (simp add: pastLine_def update_def removeOffScreen_def)
qed

lemma exec_pastLine:
  assumes "floored s" and "tidy s" and "pastLine s" and "admissible c s"
  shows "pastLine (exec c s)"
proof (cases c)
  case (Update ts rnd)
  obtain a b d where rnd: "rnd = (a, b, d)" by (cases rnd)
  have "lastTime s \<le> ts" using assms(4) Update rnd by simp
  then show ?thesis using Update assms(1-3) by (simp add: update_pastLine)
qed (use assms(3) in \<open>simp_all add: pastLine_def start_def reset_def updateDropTime_def
       scheduleNextSpawn_def Let_def stop_def setBasketPose_def setScoreChangeCallback_def
       setGameEndCallback_def\<close>)

lemma reachable_pastLine: "reachable s \<Longrightarrow> pastLine s"
proof (induction rule: reachable.induct)
  case constructed
  show ?case by (simp add: pastLine_def GameEngine_def)
next
  case (called s c)
  then show ?case by (intro exec_pastLine reachable_floored reachable_tidy)
qed

text \<open>
  C1, as the code has it. In an update of a reachable, active engine whose clock has not
  run backwards, let \<open>s\<close> be the engine when the collisions are checked and let a bomb
  stand at index \<open>k\<close> of its collection, with its zone equal to the basket position and
  its \<open>y\<close> in \<open>[0.85, 1.0)\<close>; let \<open>e\<close> be the engine as the items before the bomb
  leave it. Resolving the bomb is \<open>gameOver\<close> with the bomb reason: the engine becomes
  inactive and the game-end callback (when installed) is called with that reason. The
  engine is inactive when the update returns and the call is in its history. The bomb
  itself is left as it was: it is not marked caught, and it stays in the collection.
\<close>

theorem matched_bomb_ends_game:
  assumes "reachable s0" and "isGameActive s0" and "lastTime s0 \<le> timestamp"
    and "s = afterMotion timestamp rnd s0"
    and "k < length (items s)"
    and "type (items s ! k) = Bomb"
    and "zone (items s ! k) = basketPosition s"
    and "0.85 \<le> y (items s ! k)" and "y (items s ! k) < 1.0"
    and "e = fst (forEachCollide (take k (items s)) s)"
  shows "collide (items s ! k) e = (gameOver BombTouched e, items s ! k)
       \<and> \<not> isGameActive (gameOver BombTouched e)
       \<and> fired (gameOver BombTouched e) =
           fired e @ (if onGameEnd s then [GameEnd (score e) (level s) BombTouched] else [])
       \<and> \<not> isGameActive (update timestamp rnd s0)
       \<and> (onGameEnd s \<longrightarrow>
            GameEnd (score e) (level s) BombTouched \<in> set (fired (update timestamp rnd s0)))
       \<and> items (checkCollisions s) ! k = items s ! k
       \<and> \<not> caught (items (checkCollisions s) ! k)
       \<and> items s ! k \<in> set (items (update timestamp rnd s0))"
proof -
  let ?it = "items s ! k"
  have mem: "?it \<in> set (items (afterMotion timestamp rnd s0))"
    using assms(4,5) by simp
  have un: "\<not> caught ?it \<and> (processed ?it \<longrightarrow> 1.0 \<le> y ?it)"
    using afterMotion_unresolved [OF reachable_floored [OF assms(1)]
            reachable_tidy [OF assms(1)] reachable_pastLine [OF assms(1)] assms(3) mem] .
  then have c: "\<not> caught ?it" and p: "\<not> processed ?it" using assms(9) by auto
  note pass = bomb_pass [OF assms(5-9) c p assms(10)]
  have upd: "update timestamp rnd s0 = removeOffScreen (checkCollisions s)"
    using assms(2) by (simp add: update_def beforeRemoval_def assms(4))
  have b: "\<not> isGameActive (gameOver BombTouched e)"
    by (simp add: gameOver_def Let_def)
  have d: "\<not> isGameActive (update timestamp rnd s0)"
    using pass(3) by (simp add: upd removeOffScreen_def)
  have f: "onGameEnd s \<longrightarrow>
            GameEnd (score e) (level s) BombTouched \<in> set (fired (update timestamp rnd s0))"
    using pass(4) by (simp add: upd removeOffScreen_def)
  have h: "\<not> caught (items (checkCollisions s) ! k)" using c by (simp add: pass(5))
  have "k < length (items (checkCollisions s))"
    using assms(5) by (simp add: checkCollisions_items forEach_length)
  then have "items (checkCollisions s) ! k \<in> set (items (checkCollisions s))"
    by (rule nth_mem)
  then have i: "?it \<in> set (items (update timestamp rnd s0))"
    using c assms(9) by (simp add: upd removeOffScreen_def pass(5))
  from pass(1) b pass(2) d f pass(5) h i show ?thesis by blast
qed

theorem matched_bomb_ends_game_witness:
  "isGameActive (run bombFalling GameEngine)
   \<and> \<not> isGameActive (update 3800 (0.3, 0, 0) (run bombFalling GameEngine))
   \<and> GameEnd 0 1 BombTouched
       \<in> set (fired (update 3800 (0.3, 0, 0) (run bombFalling GameEngine)))"
proof -
  let ?s = "afterMotion 3800 (0.3, 0, 0) (run bombFalling GameEngine)"
  have a: "isGameActive (run bombFalling GameEngine)"
    by (simp add: bombFalling_def engine_defs)
  have t: "lastTime (run bombFalling GameEngine) \<le> 3800"
    by (simp add: bombFalling_def engine_defs)
  have h1: "0 < length (items ?s)" by (simp add: bombFalling_def engine_defs)
  have h2: "type (items ?s ! 0) = Bomb" by (simp add: bombFalling_def engine_defs)
  have h3: "zone (items ?s ! 0) = basketPosition ?s" by (simp add: bombFalling_def engine_defs)
  have h4: "0.85 \<le> y (items ?s ! 0)" by (simp add: bombFalling_def engine_defs)
  have h5: "y (items ?s ! 0) < 1.0" by (simp add: bombFalling_def engine_defs)
  have g: "onGameEnd ?s" "score ?s = 0" "level ?s = 1"
    by (simp_all add: bombFalling_def engine_defs)
  show ?thesis
    using matched_bomb_ends_game [OF bombFalling_reachable a t refl h1 h2 h3 h4 h5 refl] a g
    by simp
qed

text \<open>
  C1, as the spec states it, fails: in the run \<open>bombFalling\<close> followed by the frame at
  3800 the bomb stands at \<open>y = 0.9\<close> under the basket when the collisions are checked;
  the game ends, and the bomb is not marked caught.
\<close>

theorem matched_bomb_not_marked_caught:
  "admissibleRun (bombFalling @ [Update 3800 (0.3, 0, 0)]) GameEngine
   \<and> isGameActive (run bombFalling GameEngine)
   \<and> items (afterMotion 3800 (0.3, 0, 0) (run bombFalling GameEngine)) ! 0
       = \<lparr>type = Bomb, zone = CENTER, y = 0.9, caught = False, processed = False\<rparr>
   \<and> basketPosition (afterMotion 3800 (0.3, 0, 0) (run bombFalling GameEngine)) = CENTER
   \<and> \<not> isGameActive
         (checkCollisions (afterMotion 3800 (0.3, 0, 0) (run bombFalling GameEngine)))
   \<and> \<not> caught (items
         (checkCollisions (afterMotion 3800 (0.3, 0, 0) (run bombFalling GameEngine))) ! 0)"
  by (simp add: bombFalling_def engine_defs)

subsection \<open>Several game-ending events in one tick\<close>

text \<open>
  C2 on the run \<open>twoBombs\<close>: both bombs are resolved in the tick of timestamp 3816, and
  the game-end callback is called for each of them within the one session.
\<close>

theorem two_bombs_fire_game_end_twice:
  "admissibleRun twoBombs GameEngine
   \<and> fired (run twoBombs GameEngine) = [GameEnd 0 1 BombTouched, GameEnd 0 1 BombTouched]"
  by (simp add: twoBombs_def engine_defs)

text \<open>
  C3 on the run \<open>threeMisses\<close>: the three apples are resolved in the tick of timestamp
  5400, each is counted as a miss, and the miss count ends at 3.
\<close>

theorem three_misses_in_one_tick:
  "admissibleRun threeMisses GameEngine
   \<and> missCount (run fruitsFalling GameEngine) = 0
   \<and> missCount (run threeMisses GameEngine) = 3"
  by (simp add: threeMisses_def fruitsFalling_def engine_defs)


subsection \<open>Misses over a whole update\<close>

lemma collide_atLine:
  "1.0 \<le> y (snd (collide it s)) \<longrightarrow> processed (snd (collide it s)) \<or> caught (snd (collide it s))"
  by (simp add: collide_def step_defs Let_def)

lemma forEach_atLine:
  "\<forall>it \<in> set (snd (forEachCollide its s)). 1.0 \<le> y it \<longrightarrow> processed it \<or> caught it"
proof (induction its arbitrary: s)
  case Nil
  show ?case by simp
next
  case (Cons it rest)
  show ?case
    using collide_atLine [of it s] Cons.IH [of "fst (collide it s)"]
    by (simp add: forEach_snd del: forEachCollide.simps(2))
qed

lemma update_atLine: "atLine s \<Longrightarrow> atLine (update ts rnd s)"
proof (cases "isGameActive s")
  case False
  assume "atLine s"
  then show ?thesis using False by (simp add: update_def)
next
  case True
  have "\<forall>it \<in> set (items (beforeRemoval ts rnd s)). 1.0 \<le> y it \<longrightarrow> processed it \<or> caught it"
    unfolding beforeRemoval_def checkCollisions_items by (rule forEach_atLine)
  then show ?thesis using True
    by (auto simp: atLine_def update_def removeOffScreen_def)
qed

lemma exec_atLine: "atLine s \<Longrightarrow> atLine (exec c s)"
proof (cases c)
  case (Update ts rnd)
  assume "atLine s"
  then show ?thesis using Update by (simp add: update_atLine)
qed (simp_all add: atLine_def start_def reset_def updateDropTime_def scheduleNextSpawn_def
       Let_def stop_def setBasketPose_def setScoreChangeCallback_def setGameEndCallback_def)

lemma reachable_atLine: "reachable s \<Longrightarrow> atLine s"
proof (induction rule: reachable.induct)
  case constructed
  show ?case by (simp add: atLine_def GameEngine_def)
next
  case (called s c)
  then show ?case by (simp add: exec_atLine)
qed

lemma spawnItems_fresh:
  "it \<in> set (items (spawnItems ts rnd s)) \<Longrightarrow>
   it \<in> set (items s) \<or> (\<not> caught it \<and> \<not> processed it \<and> y it = 0)"
  by (cases rnd) (auto simp: tick_defs Let_def split: if_splits)

text \<open>The items about to be moved: none is caught, and the processed ones are those past the line.\<close>

lemma beforeMotion_item:
  assumes "reachable s0"
    and "x \<in> set (items (spawnItems ts rnd (levelTimer dt (s0\<lparr>lastTime := ts\<rparr>))))"
  shows "\<not> caught x \<and> (processed x \<longleftrightarrow> 1.0 \<le> y x)"
proof -
  have "x \<in> set (items s0) \<or> (\<not> caught x \<and> \<not> processed x \<and> y x = 0)"
    using spawnItems_fresh [OF assms(2)] by (simp add: levelTimer_frame)
  then show ?thesis
  proof
    assume m: "x \<in> set (items s0)"
    have "\<not> caught x" using reachable_tidy [OF assms(1)] m by (simp add: tidy_def)
    moreover have "processed x \<longrightarrow> 1.0 \<le> y x"
      using reachable_pastLine [OF assms(1)] m by (simp add: pastLine_def)
    moreover have "1.0 \<le> y x \<longrightarrow> processed x"
      using reachable_atLine [OF assms(1)] m by (simp add: atLine_def)
    ultimately show ?thesis by blast
  next
    assume "\<not> caught x \<and> \<not> processed x \<and> y x = 0"
    then show ?thesis by simp
  qed
qed

text \<open>What a pass does at index \<open>k\<close>, and how it goes on from there.\<close>

lemma pass_at:
  assumes "k < length (items s)"
    and "e = fst (forEachCollide (take k (items s)) s)"
  shows "items (checkCollisions s) ! k = snd (collide (items s ! k) e)"
    and "fst (forEachCollide (items s) s)
           = fst (forEachCollide (drop (Suc k) (items s)) (fst (collide (items s ! k) e)))"
proof -
  let ?it = "items s ! k"
  let ?rest = "drop (Suc k) (items s)"
  have split: "items s = take k (items s) @ ?it # ?rest"
    using assms(1) by (rule id_take_nth_drop)
  have "fst (forEachCollide (items s) s) = fst (forEachCollide (?it # ?rest) e)"
    using arg_cong [OF split, of "\<lambda>l. fst (forEachCollide l s)"]
    by (simp only: forEach_append_fst assms(2))
  then show "fst (forEachCollide (items s) s)
           = fst (forEachCollide ?rest (fst (collide ?it e)))"
    by (simp only: forEach_fst)
  have "snd (forEachCollide (items s) s)
          = snd (forEachCollide (take k (items s)) s) @ snd (forEachCollide (?it # ?rest) e)"
    using arg_cong [OF split, of "\<lambda>l. snd (forEachCollide l s)"]
    by (simp only: forEach_append_snd assms(2))
  moreover have "length (snd (forEachCollide (take k (items s)) s)) = k"
    using assms(1) by (simp add: forEach_length)
  ultimately show "items (checkCollisions s) ! k = snd (collide ?it e)"
    by (simp add: checkCollisions_items nth_append forEach_snd del: forEachCollide.simps(2))
qed

lemma afterMotion_callbacks:
  "onScoreChange (afterMotion ts rnd s) = onScoreChange s \<and>
   onGameEnd (afterMotion ts rnd s) = onGameEnd s \<and>
   missCount (afterMotion ts rnd s) = missCount s"
  by (cases rnd) (simp add: afterMotion_def tick_defs Let_def)

lemma handleMiss_effect:
  "missCount (handleMiss it e) = missCount e + 1
   \<and> fired (handleMiss it e) =
       fired e
       @ (if onScoreChange e then [ScoreChange (score e) (level e) (missCount e + 1)] else [])
       @ (if 2 \<le> missCount e + 1 \<and> onGameEnd e
          then [GameEnd (score e) (level e) FruitsMissed] else [])
   \<and> isGameActive (handleMiss it e) = (isGameActive e \<and> missCount e + 1 < 2)"
  by (auto simp add: step_defs Let_def)


text \<open>
  C4. Take an update of a reachable, active engine, with \<open>s1\<close> the engine before the
  motion step and \<open>s\<close> the engine after it, when \<open>update\<close> checks the collisions, and
  let a fruit stand at index \<open>k\<close>, not yet processed, with \<open>y \<ge> 1.0\<close>; let \<open>e\<close> be
  the engine as the items before it leave it. Then:
  \<^item> the fruit is not caught and stood above the line before this motion step, so this
    is the tick in which its \<open>y\<close> first reaches 1.0;
  \<^item> it is handed to \<open>handleMiss\<close>: the miss count grows by one, the change callback
    (when installed) is called with the new count, and this call is in the history of
    the engine that \<open>update\<close> returns;
  \<^item> the pass stores the fruit with \<open>processed\<close> set at index \<open>k\<close> of the collection, it
    stays in the collection that \<open>update\<close> returns while \<open>y \<le> 1.2\<close>, every item of
    that collection with \<open>y \<ge> 1.0\<close> is processed, and a processed item is skipped by
    every later resolution, wherever it has moved to;
  \<^item> over the update the miss count grows by the number of fruits that cross the line in
    this tick (above it before the motion step, at or below it after), so every fruit is
    counted once, in the tick in which it crosses;
  \<^item> the miss count is 0 after \<open>start()\<close> and no other call than an update of an active
    engine changes it, so it is the number of misses of the session; when the count
    was already at least 1 as the fruit is resolved (a second miss), the engine that
    \<open>update\<close> returns is inactive and the game-end callback (when installed) has been
    called with the missed-fruits reason.
\<close>

theorem fruit_miss_counts_once:
  assumes "reachable s0" and "isGameActive s0"
    and "deltaTime = (timestamp - lastTime s0) / 1000"
    and "s1 = spawnItems timestamp rnd (levelTimer deltaTime (s0\<lparr>lastTime := timestamp\<rparr>))"
    and "s = moveItems deltaTime s1"
    and "k < length (items s)"
    and "type (items s ! k) \<noteq> Bomb"
    and "\<not> processed (items s ! k)"
    and "1.0 \<le> y (items s ! k)"
    and "e = fst (forEachCollide (take k (items s)) s)"
  shows "s = afterMotion timestamp rnd s0
       \<and> update timestamp rnd s0 = removeOffScreen (checkCollisions s)
       \<and> items s ! k
           = (items s1 ! k)\<lparr>y := y (items s1 ! k) + 1 / currentDropTime s1 * deltaTime\<rparr>
       \<and> y (items s1 ! k) < 1.0
       \<and> \<not> caught (items s ! k)
       \<and> collide (items s ! k) e
           = (handleMiss (items s ! k) e, (items s ! k)\<lparr>processed := True\<rparr>)
       \<and> missCount e = missCount s0 + int (length (filter
             (\<lambda>it. type it \<noteq> Bomb \<and> \<not> caught it \<and> \<not> processed it \<and> 1.0 \<le> y it)
             (take k (items s))))
       \<and> onScoreChange e = onScoreChange s0
       \<and> onGameEnd e = onGameEnd s0
       \<and> missCount (handleMiss (items s ! k) e) = missCount e + 1
       \<and> fired (handleMiss (items s ! k) e) =
           fired e
           @ (if onScoreChange e then [ScoreChange (score e) (level e) (missCount e + 1)] else [])
           @ (if 2 \<le> missCount e + 1 \<and> onGameEnd e
              then [GameEnd (score e) (level e) FruitsMissed] else [])
       \<and> (onScoreChange e \<longrightarrow>
            ScoreChange (score e) (level e) (missCount e + 1)
              \<in> set (fired (update timestamp rnd s0)))
       \<and> items (checkCollisions s) ! k = (items s ! k)\<lparr>processed := True\<rparr>
       \<and> (y (items s ! k) \<le> 1.2 \<longrightarrow>
            (items s ! k)\<lparr>processed := True\<rparr> \<in> set (items (update timestamp rnd s0)))
       \<and> (\<forall>it \<in> set (items (update timestamp rnd s0)). 1.0 \<le> y it \<longrightarrow> processed it)
       \<and> collide ((items s ! k)\<lparr>processed := True, y := y'\<rparr>) s'
           = (s', (items s ! k)\<lparr>processed := True, y := y'\<rparr>)
       \<and> missCount (checkCollisions s) =
           missCount s + int (length (filter
             (\<lambda>it. type it \<noteq> Bomb \<and> \<not> caught it \<and> \<not> processed it \<and> 1.0 \<le> y it) (items s)))
       \<and> missCount (update timestamp rnd s0) =
           missCount s0 + int (length (filter
             (\<lambda>it. type it \<noteq> Bomb \<and> y it < 1.0
                    \<and> 1.0 \<le> y it + 1 / currentDropTime s1 * deltaTime) (items s1)))
       \<and> (1 \<le> missCount e \<longrightarrow> \<not> isGameActive (update timestamp rnd s0))
       \<and> (1 \<le> missCount e \<longrightarrow> onGameEnd e \<longrightarrow>
            GameEnd (score e) (level e) FruitsMissed \<in> set (fired (update timestamp rnd s0)))
       \<and> missCount (start rnd' now x) = 0
       \<and> missCount (stop x) = missCount x
       \<and> missCount (setBasketPose poseLabel x) = missCount x
       \<and> (\<not> isGameActive x \<longrightarrow> update timestamp' rnd'' x = x)"
proof -
  let ?it = "items s ! k"
  let ?old = "items s1 ! k"
  let ?step = "1 / currentDropTime s1 * deltaTime"
  let ?missed = "\<lambda>it. type it \<noteq> Bomb \<and> \<not> caught it \<and> \<not> processed it \<and> 1.0 \<le> y it"
  let ?rest = "drop (Suc k) (items s)"
  let ?u = "update timestamp rnd s0"

  have a1: "s = afterMotion timestamp rnd s0"
    by (simp add: afterMotion_def Let_def assms(3,4,5))
  have a2: "?u = removeOffScreen (checkCollisions s)"
    using assms(2) by (simp add: update_def beforeRemoval_def a1)

  have moved: "items s = map (\<lambda>it. it\<lparr>y := y it + ?step\<rparr>) (items s1)"
    by (simp add: assms(5) moveItems_def Let_def)
  have k1: "k < length (items s1)" using assms(6) by (simp add: moved)
  have b1: "?it = ?old\<lparr>y := y ?old + ?step\<rparr>"
    using k1 by (simp add: moved)
  have inv1: "\<And>x. x \<in> set (items s1) \<Longrightarrow> \<not> caught x \<and> (processed x \<longleftrightarrow> 1.0 \<le> y x)"
    using beforeMotion_item [OF assms(1)] by (simp add: assms(4))
  have old: "\<not> caught ?old \<and> (processed ?old \<longleftrightarrow> 1.0 \<le> y ?old)"
    using k1 by (intro inv1 nth_mem)
  have "\<not> processed ?old" using assms(8) by (simp add: b1)
  then have b2: "y ?old < 1.0" using old by simp
  have b3: "\<not> caught ?it" using old by (simp add: b1)

  have c: "collide ?it e = (handleMiss ?it e, ?it\<lparr>processed := True\<rparr>)"
    using assms(7,8,9) b3 by (simp add: collide_def)

  have fr: "onScoreChange e = onScoreChange s" "onGameEnd e = onGameEnd s"
    by (simp_all add: assms(10) forEach_engine_frame)
  have n: "missCount e = missCount s0 + int (length (filter ?missed (take k (items s))))"
    using forEach_missCount [of "take k (items s)" s]
    by (simp only: assms(10) a1 afterMotion_callbacks)
  have f1: "onScoreChange e = onScoreChange s0"
    by (simp add: fr a1 afterMotion_callbacks)
  have f2: "onGameEnd e = onGameEnd s0"
    by (simp add: fr a1 afterMotion_callbacks)

  note hm = handleMiss_effect [of ?it e]
  have d: "missCount (handleMiss ?it e) = missCount e + 1" using hm by blast
  have e1: "fired (handleMiss ?it e) =
           fired e
           @ (if onScoreChange e then [ScoreChange (score e) (level e) (missCount e + 1)] else [])
           @ (if 2 \<le> missCount e + 1 \<and> onGameEnd e
              then [GameEnd (score e) (level e) FruitsMissed] else [])"
    using hm by blast
  have act: "isGameActive (handleMiss ?it e) = (isGameActive e \<and> missCount e + 1 < 2)"
    using hm by blast

  have last: "fst (forEachCollide (items s) s) = fst (forEachCollide ?rest (handleMiss ?it e))"
    using pass_at(2) [OF assms(6,10)] by (simp only: c fst_conv)
  obtain ev where ev: "fired (fst (forEachCollide ?rest (handleMiss ?it e)))
                         = fired (handleMiss ?it e) @ ev"
    using forEach_fired_grows [of ?rest "handleMiss ?it e"] by blast
  have fu: "fired ?u = fired (handleMiss ?it e) @ ev"
    by (simp add: a2 removeOffScreen_def checkCollisions_more last ev)
  have k2: "onScoreChange e \<longrightarrow>
            ScoreChange (score e) (level e) (missCount e + 1) \<in> set (fired ?u)"
    by (simp add: fu e1)

  have f: "items (checkCollisions s) ! k = ?it\<lparr>processed := True\<rparr>"
    using pass_at(1) [OF assms(6,10)] by (simp only: c snd_conv)
  have "k < length (items (checkCollisions s))"
    using assms(6) by (simp add: checkCollisions_items forEach_length)
  then have "items (checkCollisions s) ! k \<in> set (items (checkCollisions s))"
    by (rule nth_mem)
  then have g: "y ?it \<le> 1.2 \<longrightarrow> ?it\<lparr>processed := True\<rparr> \<in> set (items ?u)"
    using b3 by (simp add: a2 removeOffScreen_def f)
  have "atLine ?u" using reachable_atLine [OF assms(1)] by (rule update_atLine)
  then have h: "\<forall>it \<in> set (items ?u). 1.0 \<le> y it \<longrightarrow> processed it"
    by (simp only: atLine_def)
  have i: "collide (?it\<lparr>processed := True, y := y'\<rparr>) s'
           = (s', ?it\<lparr>processed := True, y := y'\<rparr>)"
    by (simp add: collide_def)

  have j0: "missCount (checkCollisions s) = missCount s + int (length (filter ?missed (items s)))"
    using forEach_missCount [of "items s" s] by (simp only: checkCollisions_more)
  have "filter (?missed \<circ> (\<lambda>it. it\<lparr>y := y it + ?step\<rparr>)) (items s1)
          = filter (\<lambda>it. type it \<noteq> Bomb \<and> y it < 1.0 \<and> 1.0 \<le> y it + ?step) (items s1)"
    by (rule filter_cong [OF refl]) (use inv1 in auto)
  then have cnt: "length (filter ?missed (items s))
          = length (filter (\<lambda>it. type it \<noteq> Bomb \<and> y it < 1.0 \<and> 1.0 \<le> y it + ?step) (items s1))"
    by (simp only: moved filter_map length_map)
  have j: "missCount ?u =
           missCount s0 + int (length (filter
             (\<lambda>it. type it \<noteq> Bomb \<and> y it < 1.0 \<and> 1.0 \<le> y it + ?step) (items s1)))"
    using j0 cnt by (simp add: a2 removeOffScreen_def a1 afterMotion_callbacks)

  have l1: "1 \<le> missCount e \<longrightarrow> \<not> isGameActive ?u"
  proof
    assume "1 \<le> missCount e"
    then have "\<not> isGameActive (handleMiss ?it e)" by (simp add: act)
    then have "\<not> isGameActive (fst (forEachCollide ?rest (handleMiss ?it e)))"
      by (rule forEach_inactive)
    then show "\<not> isGameActive ?u"
      by (simp add: a2 removeOffScreen_def checkCollisions_more last)
  qed
  have l2: "1 \<le> missCount e \<longrightarrow> onGameEnd e \<longrightarrow>
            GameEnd (score e) (level e) FruitsMissed \<in> set (fired ?u)"
    by (simp add: fu e1)

  have m1: "missCount (start rnd' now x) = 0"
    by (simp add: start_def reset_def updateDropTime_def scheduleNextSpawn_def Let_def)
  have m2: "missCount (stop x) = missCount x" by (simp add: stop_def)
  have m3: "missCount (setBasketPose poseLabel x) = missCount x"
    by (simp add: setBasketPose_def)
  have m4: "\<not> isGameActive x \<longrightarrow> update timestamp' rnd'' x = x"
    by (simp add: update_def)

  show ?thesis
    by (intro conjI) (fact a1 a2 b1 b2 b3 c n f1 f2 d e1 k2 f g h i j0 j l1 l2 m1 m2 m3 m4)+
qed

theorem fruit_miss_counts_once_witness:
  "missCount (run oneMissed GameEngine) = 1
   \<and> map y (items (run oneMissed GameEngine)) = [1.15, 0.65]
   \<and> map processed (items (run oneMissed GameEngine)) = [True, False]
   \<and> missCount (update 5100 (0.3, 0, 0) (run oneMissed GameEngine)) = 2
   \<and> \<not> isGameActive (update 5100 (0.3, 0, 0) (run oneMissed GameEngine))
   \<and> fired (update 5100 (0.3, 0, 0) (run oneMissed GameEngine))
       = [ScoreChange 0 1 1, ScoreChange 0 1 2, GameEnd 0 1 FruitsMissed]
   \<and> items (update 5100 (0.3, 0, 0) (run oneMissed GameEngine))
       = [\<lparr>type = Apple, zone = LEFT, y = 1.05, caught = False, processed = True\<rparr>,
          \<lparr>type = Apple, zone = LEFT, y = 0.4, caught = False, processed = False\<rparr>]"
proof -
  let ?init = "run oneMissed GameEngine"
  let ?pre = "spawnItems 5100 (0.3, 0, 0)
               (levelTimer ((5100 - lastTime ?init) / 1000) (?init\<lparr>lastTime := 5100\<rparr>))"
  let ?mv = "moveItems ((5100 - lastTime ?init) / 1000) ?pre"
  have r: "reachable ?init"
    by (rule admissibleRun_reachable [OF reachable.constructed])
       (simp add: oneMissed_def engine_defs)
  have a: "isGameActive ?init" by (simp add: oneMissed_def engine_defs)
  have h1: "1 < length (items ?mv)" by (simp add: oneMissed_def engine_defs)
  have h2: "type (items ?mv ! 1) \<noteq> Bomb" by (simp add: oneMissed_def engine_defs)
  have h3: "\<not> processed (items ?mv ! 1)" by (simp add: oneMissed_def engine_defs)
  have h4: "1.0 \<le> y (items ?mv ! 1)" by (simp add: oneMissed_def engine_defs)
  note inst = fruit_miss_counts_once [OF r a refl refl refl h1 h2 h3 h4 refl]
  have ev: "missCount ?init = 1" "map y (items ?init) = [1.15, 0.65]"
    "map processed (items ?init) = [True, False]"
    "fired (update 5100 (0.3, 0, 0) ?init)
       = [ScoreChange 0 1 1, ScoreChange 0 1 2, GameEnd 0 1 FruitsMissed]"
    "items (update 5100 (0.3, 0, 0) ?init)
       = [\<lparr>type = Apple, zone = LEFT, y = 1.05, caught = False, processed = True\<rparr>,
          \<lparr>type = Apple, zone = LEFT, y = 0.4, caught = False, processed = False\<rparr>]"
    "missCount (fst (forEachCollide (take 1 (items ?mv)) ?mv)) = 1"
    "missCount (update 5100 (0.3, 0, 0) ?init) = 2"
    by (simp_all add: oneMissed_def engine_defs)
  have "1 \<le> missCount (fst (forEachCollide (take 1 (items ?mv)) ?mv))
          \<longrightarrow> \<not> isGameActive (update 5100 (0.3, 0, 0) ?init)"
    using inst by blast
  then have "\<not> isGameActive (update 5100 (0.3, 0, 0) ?init)"
    by (simp only: ev(6) order_refl simp_thms)
  with ev show ?thesis by simp
qed

end
